theory Spec2Isabelle
  imports Complex_Main "HOL-Library.Word"
begin

section \<open>Data model\<close>

text \<open>
  The program is \<^verbatim>\<open>tools/mcp_image_server.py\<close>: six tool handlers over one resolver,
  \<^verbatim>\<open>_decode_image_to_pil\<close>. Everything the handlers call in Pillow, OpenCV, pytesseract,
  \<^verbatim>\<open>os.path\<close> and \<^verbatim>\<open>base64\<close> is outside the repository; those calls are the fields of
  the record \<open>env\<close> below, each returning an error or a value, so that every statement
  proved here holds for whatever the libraries compute. Two library computations are
  written out instead, where they are introduced: the size that \<^verbatim>\<open>Image.thumbnail\<close>
  settles on, and the base64 encoding of a byte buffer.
\<close>

type_synonym byte = "8 word"

text \<open>Exceptions a call can raise. The source defines no exception class of its own.\<close>

datatype py_error =
    ValueError
  | ZeroDivisionError
  | BinasciiError
  | UnidentifiedImageError
  | OSError
  | LibraryError string

text \<open>
  A \<^verbatim>\<open>PIL.Image\<close> object: the attributes the handlers read, and the pixel data, which only
  the libraries look into.
\<close>

record 'px pil_image =
  width :: int
  height :: int
  mode :: string
  format :: "string option"
  pixels :: 'px

text \<open>
  The module object \<^verbatim>\<open>cv2\<close> as the handler uses it: \<^verbatim>\<open>QRCodeDetector().detectAndDecode\<close>
  (its first result, the decoded string) and, when the detector has the attribute,
  \<^verbatim>\<open>detectAndDecodeMulti\<close> (its second result, which may be \<^verbatim>\<open>None\<close>). Both take the
  array \<^verbatim>\<open>np.array(im)\<close>, which stands here as the image it is made from.
\<close>

record 'px cv2_module =
  detectAndDecode :: "'px pil_image \<Rightarrow> py_error + string"
  detectAndDecodeMulti :: "('px pil_image \<Rightarrow> py_error + string list option) option"

text \<open>
  The world outside the file. \<open>cv2\<close> is \<open>None\<close> when the import at module level
  failed; \<open>pytesseract\<close> is \<open>Inl e\<close> when the import inside \<^verbatim>\<open>ocr_text\<close> raises an
  exception that prints as \<open>e\<close>, and otherwise \<^verbatim>\<open>image_to_string\<close>.
\<close>

record 'px env =
  path_exists :: "string \<Rightarrow> bool"
  pil_open_path :: "string \<Rightarrow> py_error + 'px pil_image"
  pil_open_bytes :: "byte list \<Rightarrow> py_error + 'px pil_image"
  b64decode :: "string \<Rightarrow> py_error + byte list"
  pil_load :: "'px pil_image \<Rightarrow> py_error + 'px"
  pil_convert :: "'px pil_image \<Rightarrow> string \<Rightarrow> py_error + 'px pil_image"
  imageops_grayscale :: "'px pil_image \<Rightarrow> py_error + 'px pil_image"
  pil_save_png :: "'px pil_image \<Rightarrow> py_error + byte list"
  pil_resample :: "'px pil_image \<Rightarrow> int \<times> int \<Rightarrow> py_error + 'px"
  pil_quantize :: "'px pil_image \<Rightarrow> int \<Rightarrow> string \<Rightarrow> py_error + 'px pil_image"
  pil_getpalette :: "'px pil_image \<Rightarrow> byte list option"
  pil_getcolors :: "'px pil_image \<Rightarrow> (int \<times> nat) list option"
  cv2 :: "'px cv2_module option"
  pytesseract :: "string + ('px pil_image \<Rightarrow> string \<Rightarrow> py_error + string)"

text \<open>Sequencing of calls that may raise: the first exception ends the handler.\<close>

definition and_then :: "'e + 'a \<Rightarrow> ('a \<Rightarrow> 'e + 'b) \<Rightarrow> 'e + 'b" where
  "and_then m f = (case m of Inl e \<Rightarrow> Inl e | Inr x \<Rightarrow> f x)"

section \<open>The resolver\<close>

text \<open>\<^verbatim>\<open>str.startswith\<close>.\<close>

definition startswith :: "string \<Rightarrow> string \<Rightarrow> bool" where
  "startswith s p = (take (length p) s = p)"

text \<open>
  \<^verbatim>\<open>s.split(sep, 1)\<close> for a one-character separator: the whole string when the separator
  does not occur, otherwise the text before the first occurrence and the text after it.
\<close>

definition split1 :: "char \<Rightarrow> string \<Rightarrow> string list" where
  "split1 sep s =
     (let rest = dropWhile (\<lambda>c. c \<noteq> sep) s
      in if rest = [] then [s] else [takeWhile (\<lambda>c. c \<noteq> sep) s, tl rest])"

text \<open>
  The tuple assignment \<^verbatim>\<open>_, b64 = ...\<close>: exactly two items, or \<^verbatim>\<open>ValueError\<close>.
\<close>

definition unpack2 :: "'a list \<Rightarrow> py_error + 'a \<times> 'a" where
  "unpack2 xs = (case xs of [a, b] \<Rightarrow> Inr (a, b) | _ \<Rightarrow> Inl ValueError)"

text \<open>Lines 32 to 44.\<close>

definition decode_image_to_pil :: "'px env \<Rightarrow> string \<Rightarrow> py_error + 'px pil_image" where
  "decode_image_to_pil env image_path_or_b64 =
     (if path_exists env image_path_or_b64 then pil_open_path env image_path_or_b64
      else
        and_then
          (if startswith image_path_or_b64 ''data:''
           then and_then (unpack2 (split1 CHR '','' image_path_or_b64)) (\<lambda>(_, b64). Inr b64)
           else Inr image_path_or_b64)
          (\<lambda>b64. and_then (b64decode env b64) (\<lambda>data. pil_open_bytes env data)))"

section \<open>The handlers\<close>

subsection \<open>\<^verbatim>\<open>image_info\<close> and \<^verbatim>\<open>grayscale\<close>\<close>

text \<open>The dictionary \<^verbatim>\<open>image_info\<close> returns, one field for each key.\<close>

record info_result =
  info_width :: int
  info_height :: int
  info_mode :: string
  info_format :: string

text \<open>
  \<^verbatim>\<open>im.format or "(unknown)"\<close>: the marker stands in for \<^verbatim>\<open>None\<close> and for the empty
  string, the two values of the attribute that Python reads as false.
\<close>

definition format_or_unknown :: "string option \<Rightarrow> string" where
  "format_or_unknown f = (case f of None \<Rightarrow> ''(unknown)'' | Some s \<Rightarrow> if s = [] then ''(unknown)'' else s)"

definition image_info :: "'px env \<Rightarrow> string \<Rightarrow> py_error + info_result" where
  "image_info env image_ref =
     and_then (decode_image_to_pil env image_ref) (\<lambda>im.
       Inr \<lparr>info_width = width im, info_height = height im, info_mode = mode im,
            info_format = format_or_unknown (format im)\<rparr>)"

text \<open>The \<^verbatim>\<open>Image(data=..., format=...)\<close> value of the protocol library.\<close>

record mcp_image =
  img_data :: "byte list"
  img_format :: string

definition grayscale :: "'px env \<Rightarrow> string \<Rightarrow> py_error + mcp_image" where
  "grayscale env image_ref =
     and_then (decode_image_to_pil env image_ref) (\<lambda>im.
     and_then (imageops_grayscale env im) (\<lambda>g.
     and_then (pil_save_png env g) (\<lambda>buf.
       Inr \<lparr>img_data = buf, img_format = ''png''\<rparr>)))"

subsection \<open>\<^verbatim>\<open>resize\<close>\<close>

text \<open>
  \<^verbatim>\<open>Image.copy\<close>: the pixel data is loaded, the size and the mode are kept, and the copy
  has no source format.
\<close>

definition pil_copy :: "'px env \<Rightarrow> 'px pil_image \<Rightarrow> py_error + 'px pil_image" where
  "pil_copy env im = and_then (pil_load env im) (\<lambda>px. Inr (im\<lparr>format := None, pixels := px\<rparr>))"

text \<open>\<^verbatim>\<open>min(a, b, key=k)\<close>: the first of the two unless the second has a smaller key.\<close>

definition min_key :: "(int \<Rightarrow> rat) \<Rightarrow> int \<Rightarrow> int \<Rightarrow> int" where
  "min_key k a b = (if k b < k a then b else a)"

definition round_aspect :: "rat \<Rightarrow> (int \<Rightarrow> rat) \<Rightarrow> int" where
  "round_aspect number k = max (min_key k \<lfloor>number\<rfloor> \<lceil>number\<rceil>) 1"

text \<open>
  Modelled from the spec: the policy of \<^verbatim>\<open>resize\<close> in section 4.3, an aspect-ratio-preserving
  downscale to fit a box that never upscales. The source delegates all of it to
  \<^verbatim>\<open>Image.thumbnail\<close> of the Pillow library, which is not part of the repository. The
  definitions \<open>min_key\<close>, \<open>round_aspect\<close>, \<open>preserve_aspect_ratio\<close>, \<open>pil_resize\<close> and
  \<open>thumbnail\<close> follow that method as Pillow publishes it from release 7.1 on (the source
  needs 9.1 or later for \<^verbatim>\<open>Image.Quantize\<close>), with exact rationals where Pillow computes in
  floating point:
  \<^item> nothing happens when the image already fits the box;
  \<^item> otherwise one side of the box is kept and the other is the image's aspect ratio
    applied to it, rounded down or up, whichever is nearer the aspect ratio, and at
    least 1;
  \<^item> the division by the box height or by the image height raises when that is 0;
  \<^item> the resampling to the computed size (left to \<open>pil_resample\<close>) refuses a size below
    1 with \<^verbatim>\<open>ValueError\<close>.
\<close>

definition preserve_aspect_ratio :: "int \<times> int \<Rightarrow> int \<times> int \<Rightarrow> py_error + (int \<times> int) option" where
  "preserve_aspect_ratio sz provided_size =
     (let w = fst sz; h = snd sz; x = fst provided_size; y = snd provided_size
      in if x \<ge> w \<and> y \<ge> h then Inr None
         else if h = 0 then Inl ZeroDivisionError
         else
           let aspect = of_int w / of_int h :: rat
           in if y = 0 then Inl ZeroDivisionError
              else if of_int x / of_int y \<ge> aspect
              then Inr (Some (round_aspect (of_int y * aspect) (\<lambda>n. \<bar>aspect - of_int n / of_int y\<bar>), y))
              else if aspect = 0 then Inl ZeroDivisionError
              else Inr (Some (x, round_aspect (of_int x / aspect)
                                   (\<lambda>n. if n = 0 then 0 else \<bar>aspect - of_int x / of_int n\<bar>))))"

definition pil_resize :: "'px env \<Rightarrow> 'px pil_image \<Rightarrow> int \<times> int \<Rightarrow> py_error + 'px pil_image" where
  "pil_resize env im sz =
     (if fst sz < 1 \<or> snd sz < 1 then Inl ValueError
      else and_then (pil_resample env im sz) (\<lambda>px.
             Inr (im\<lparr>width := fst sz, height := snd sz, pixels := px\<rparr>)))"

definition thumbnail :: "'px env \<Rightarrow> 'px pil_image \<Rightarrow> int \<times> int \<Rightarrow> py_error + 'px pil_image" where
  "thumbnail env im provided_size =
     and_then (preserve_aspect_ratio (width im, height im) provided_size) (\<lambda>preserved.
       case preserved of
         None \<Rightarrow> Inr im
       | Some final_size \<Rightarrow>
           if (width im, height im) \<noteq> final_size then pil_resize env im final_size else Inr im)"

text \<open>Lines 71 to 76.\<close>

definition resize :: "'px env \<Rightarrow> string \<Rightarrow> int \<Rightarrow> int \<Rightarrow> py_error + mcp_image" where
  "resize env image_ref max_w max_h =
     and_then (decode_image_to_pil env image_ref) (\<lambda>im0.
     and_then (pil_copy env im0) (\<lambda>im.
     and_then (thumbnail env im (max_w, max_h)) (\<lambda>im'.
     and_then (pil_save_png env im') (\<lambda>buf.
       Inr \<lparr>img_data = buf, img_format = ''png''\<rparr>))))"

subsection \<open>\<^verbatim>\<open>dominant_colors\<close>\<close>

text \<open>
  The format specification \<^verbatim>\<open>02x\<close> on a number that is not negative: lowercase
  hexadecimal digits, padded with zeros on the left to a width of two.
\<close>

definition hex_digit :: "nat \<Rightarrow> char" where
  "hex_digit d = ''0123456789abcdef'' ! d"

fun hex_digits :: "nat \<Rightarrow> string" where
  "hex_digits n = (if n < 16 then [hex_digit n] else hex_digits (n div 16) @ [hex_digit (n mod 16)])"

definition format_02x :: "nat \<Rightarrow> string" where
  "format_02x n = (let ds = hex_digits n in replicate (2 - length ds) CHR ''0'' @ ds)"

text \<open>The f-string of line 91. A palette entry is a byte.\<close>

definition hex_color :: "byte \<Rightarrow> byte \<Rightarrow> byte \<Rightarrow> string" where
  "hex_color r g b = ''#'' @ format_02x (unat r) @ format_02x (unat g) @ format_02x (unat b)"

text \<open>
  \<^verbatim>\<open>sorted(used, key=lambda t: t[0], reverse=True)\<close>: descending in the count, and
  stable, so entries of equal count keep the order they had.
\<close>

definition sorted_by_count_desc :: "(int \<times> nat) list \<Rightarrow> (int \<times> nat) list" where
  "sorted_by_count_desc used = sort_key (\<lambda>t. - fst t) used"

text \<open>
  The loop of lines 89 to 91. The slice \<^verbatim>\<open>palette[idx * 3 : idx * 3 + 3]\<close> is shorter than
  three where the palette ends, and the assignment to \<^verbatim>\<open>r, g, b\<close> then raises.
\<close>

fun hexes_loop :: "byte list \<Rightarrow> (int \<times> nat) list \<Rightarrow> string list \<Rightarrow> py_error + string list" where
  "hexes_loop palette [] hexes = Inr hexes"
| "hexes_loop palette ((_, idx) # top_used) hexes =
     (case take 3 (drop (idx * 3) palette) of
        [r, g, b] \<Rightarrow> hexes_loop palette top_used (hexes @ [hex_color r g b])
      | _ \<Rightarrow> Inl ValueError)"

text \<open>Lines 80 to 92. The result is the list under the key \<^verbatim>\<open>colors\<close>.\<close>

definition dominant_colors :: "'px env \<Rightarrow> string \<Rightarrow> int \<Rightarrow> py_error + string list" where
  "dominant_colors env image_ref colors =
     and_then (decode_image_to_pil env image_ref) (\<lambda>im0.
     and_then (pil_convert env im0 ''RGB'') (\<lambda>im.
     and_then (pil_quantize env im (max 1 colors) ''MEDIANCUT'') (\<lambda>q.
       case (pil_getcolors env q, pil_getpalette env q) of
         (Some used, Some palette) \<Rightarrow>
           if used \<noteq> [] \<and> palette \<noteq> []
           then hexes_loop palette (take (nat (max 1 colors)) (sorted_by_count_desc used)) []
           else Inr []
       | _ \<Rightarrow> Inr [])))"

subsection \<open>\<^verbatim>\<open>detect_qr\<close>\<close>

record qr_result =
  error :: "string option"
  count :: int
  data :: "string list"

text \<open>The loop of lines 114 to 116.\<close>

fun merge_multi :: "string list \<Rightarrow> string list \<Rightarrow> string list" where
  "merge_multi [] datas = datas"
| "merge_multi (s # decoded_infos) datas =
     merge_multi decoded_infos (if s \<noteq> [] \<and> s \<notin> set datas then datas @ [s] else datas)"

text \<open>Lines 96 to 117.\<close>

definition detect_qr :: "'px env \<Rightarrow> string \<Rightarrow> py_error + qr_result" where
  "detect_qr env image_ref =
     (case cv2 env of
        None \<Rightarrow>
          Inr \<lparr>error = Some ''OpenCV not available. pip install opencv-python'',
               count = 0, data = []\<rparr>
      | Some detector \<Rightarrow>
          and_then (decode_image_to_pil env image_ref) (\<lambda>im0.
          and_then (pil_convert env im0 ''RGB'') (\<lambda>arr.
          and_then (detectAndDecode detector arr) (\<lambda>d.
          and_then
            (let datas = (if d \<noteq> [] then [d] else [])
             in case detectAndDecodeMulti detector of
                  None \<Rightarrow> Inr datas
                | Some multi \<Rightarrow>
                    and_then (multi arr) (\<lambda>decoded_infos.
                      Inr (merge_multi (case decoded_infos of None \<Rightarrow> [] | Some l \<Rightarrow> l) datas)))
            (\<lambda>datas. Inr \<lparr>error = None, count = int (length datas), data = datas\<rparr>)))))"

subsection \<open>\<^verbatim>\<open>ocr_text\<close>\<close>

text \<open>Lines 121 to 130.\<close>

definition ocr_text :: "'px env \<Rightarrow> string \<Rightarrow> string \<Rightarrow> py_error + string" where
  "ocr_text env image_ref lang =
     (case pytesseract env of
        Inl e \<Rightarrow>
          Inr (''pytesseract is not installed or Tesseract binary missing: '' @ e
               @ ''. Install with `pip install pytesseract` and system Tesseract.'')
      | Inr image_to_string \<Rightarrow>
          and_then (decode_image_to_pil env image_ref) (\<lambda>im0.
          and_then (pil_convert env im0 ''L'') (\<lambda>im. image_to_string im lang)))"

section \<open>Base64 text\<close>

text \<open>
  Modelled from the spec: \<open>base64(B)\<close> of section 8, the encoding that
  \<^verbatim>\<open>base64.b64decode\<close> reverses. It is the standard one (RFC 4648, Python's
  \<^verbatim>\<open>base64.b64encode\<close>): three bytes become four characters of the alphabet, and a last
  group of one or two bytes is padded with \<open>=\<close>. The source has no encoder.
\<close>

definition b64_alphabet :: string where
  "b64_alphabet = ''ABCDEFGHIJKLMNOPQRSTUVWXYZabcdefghijklmnopqrstuvwxyz0123456789+/''"

definition b64_char :: "nat \<Rightarrow> char" where
  "b64_char n = b64_alphabet ! n"

fun b64encode :: "byte list \<Rightarrow> string" where
  "b64encode [] = []"
| "b64encode [a] =
     [b64_char (unat a div 4), b64_char (unat a mod 4 * 16), CHR ''='', CHR ''='']"
| "b64encode [a, b] =
     [b64_char (unat a div 4), b64_char (unat a mod 4 * 16 + unat b div 16),
      b64_char (unat b mod 16 * 4), CHR ''='']"
| "b64encode (a # b # c # rest) =
     [b64_char (unat a div 4), b64_char (unat a mod 4 * 16 + unat b div 16),
      b64_char (unat b mod 16 * 4 + unat c div 64), b64_char (unat c mod 64)]
     @ b64encode rest"

section \<open>Reference definitions and a small world for evaluation\<close>

text \<open>
  In the words of section 4.3: the unique non-empty strings of a sequence, in the order
  in which each is first seen. (\<open>remdups\<close> keeps the last occurrence of each element,
  hence the two reversals.)
\<close>

definition first_seen_order :: "string list \<Rightarrow> string list" where
  "first_seen_order xs = rev (remdups (rev (filter (\<lambda>s. s \<noteq> []) xs)))"


text \<open>
  A world in which one path exists, one base64 text decodes, the codec saves a raster as
  the two bytes of its width and height, the quantizer finds two colours and the QR engine
  reads two symbols. The handlers are evaluated in it below.
\<close>

definition example_image :: "nat pil_image" where
  "example_image = \<lparr>width = 10, height = 10, mode = ''RGBA'', format = None, pixels = 7\<rparr>"

definition example_env :: "nat env" where
  "example_env =
     \<lparr>path_exists = (\<lambda>p. p = ''/tmp/a.png''),
      pil_open_path = (\<lambda>p. Inr (example_image\<lparr>format := Some ''PNG''\<rparr>)),
      pil_open_bytes = (\<lambda>bs. if bs = [65] then Inr example_image else Inl UnidentifiedImageError),
      b64decode = (\<lambda>s. if s = ''QQ=='' then Inr [65] else Inl BinasciiError),
      pil_load = (\<lambda>im. Inr (pixels im)),
      pil_convert = (\<lambda>im m. Inr (im\<lparr>mode := m\<rparr>)),
      imageops_grayscale = (\<lambda>im. Inr (im\<lparr>mode := ''L''\<rparr>)),
      pil_save_png = (\<lambda>im. Inr [word_of_int (width im), word_of_int (height im)]),
      pil_resample = (\<lambda>im sz. Inr (pixels im)),
      pil_quantize = (\<lambda>im n m. Inr (im\<lparr>mode := ''P''\<rparr>)),
      pil_getpalette = (\<lambda>q. Some [255, 0, 0, 0, 10, 171]),
      pil_getcolors = (\<lambda>q. Some [(30, 1), (70, 0)]),
      cv2 = Some \<lparr>detectAndDecode = (\<lambda>arr. Inr ''HELLO''),
                  detectAndDecodeMulti =
                    Some (\<lambda>arr. Inr (Some [''HELLO'', [], ''WORLD'', ''WORLD'']))\<rparr>,
      pytesseract = Inr (\<lambda>im lang. Inr ''text'')\<rparr>"


text \<open>
  The same world with the OCR wrapper installed and its engine absent: the import inside
  \<^verbatim>\<open>ocr_text\<close> succeeds, and \<^verbatim>\<open>image_to_string\<close> raises because it finds no Tesseract
  binary.
\<close>

definition tesseract_missing_env :: "nat env" where
  "tesseract_missing_env =
     example_env\<lparr>pytesseract := Inr (\<lambda>im lang. Inl (LibraryError ''TesseractNotFoundError''))\<rparr>"

section \<open>Properties\<close>

subsection \<open>Sequencing and splitting\<close>

lemma and_then_Inl: "and_then (Inl e) f = Inl e"
  by (simp add: and_then_def)

lemma and_then_Inr: "and_then (Inr x) f = f x"
  by (simp add: and_then_def)

lemma and_then_eq_Inr: "and_then m f = Inr y \<longleftrightarrow> (\<exists>x. m = Inr x \<and> f x = Inr y)"
  by (cases m) (simp_all add: and_then_def)

lemma and_then_eq_Inl: "and_then m f = Inl e \<longleftrightarrow> m = Inl e \<or> (\<exists>x. m = Inr x \<and> f x = Inl e)"
  by (cases m) (simp_all add: and_then_def)

lemma split1_no_sep: "sep \<notin> set s \<Longrightarrow> split1 sep s = [s]"
proof -
  assume "sep \<notin> set s"
  then have "dropWhile (\<lambda>c. c \<noteq> sep) s = []" by (induction s) auto
  then show ?thesis by (simp add: split1_def)
qed

lemma split1_first_sep: "sep \<notin> set h \<Longrightarrow> split1 sep (h @ sep # p) = [h, p]"
proof -
  assume h: "sep \<notin> set h"
  then have d: "dropWhile (\<lambda>c. c \<noteq> sep) (h @ sep # p) = sep # p"
    by (induction h) auto
  from h have t: "takeWhile (\<lambda>c. c \<noteq> sep) (h @ sep # p) = h"
    by (induction h) auto
  from d t show ?thesis by (simp add: split1_def)
qed

subsection \<open>The resolver\<close>

lemma decode_path:
  "path_exists env s \<Longrightarrow> decode_image_to_pil env s = pil_open_path env s"
  by (simp add: decode_image_to_pil_def)

lemma decode_data_uri:
  assumes "\<not> path_exists env s" "startswith s ''data:''" "s = h @ CHR '','' # p" "CHR '','' \<notin> set h"
  shows "decode_image_to_pil env s = and_then (b64decode env p) (pil_open_bytes env)"
  using assms(1,2) split1_first_sep[OF assms(4), of p]
  by (simp add: decode_image_to_pil_def assms(3) unpack2_def and_then_def)

lemma decode_data_uri_no_comma:
  assumes "\<not> path_exists env s" "startswith s ''data:''" "CHR '','' \<notin> set s"
  shows "decode_image_to_pil env s = Inl ValueError"
  using assms(1,2) split1_no_sep[OF assms(3)]
  by (simp add: decode_image_to_pil_def unpack2_def and_then_def)

lemma decode_raw:
  assumes "\<not> path_exists env s" "\<not> startswith s ''data:''"
  shows "decode_image_to_pil env s = and_then (b64decode env s) (pil_open_bytes env)"
  using assms by (simp add: decode_image_to_pil_def and_then_def)

lemma decode_fails_bad_base64:
  "\<not> path_exists env s \<Longrightarrow> \<not> startswith s ''data:'' \<Longrightarrow> b64decode env s = Inl e
   \<Longrightarrow> decode_image_to_pil env s = Inl e"
  by (simp add: decode_raw and_then_def)

lemma decode_fails_bad_container:
  "\<not> path_exists env s \<Longrightarrow> \<not> startswith s ''data:'' \<Longrightarrow> b64decode env s = Inr bs
   \<Longrightarrow> pil_open_bytes env bs = Inl e \<Longrightarrow> decode_image_to_pil env s = Inl e"
  by (simp add: decode_raw and_then_def)

text \<open>
  Claim C1. For every reference string the resolver follows one interpretation, chosen in
  a fixed order. A string that names an existing filesystem entry is opened as an image
  file, and what the base64 decoder and the in-memory codec would do with it has no
  influence on the result. Otherwise a string that starts with \<open>data:\<close> is split at its first
  comma, the text after that comma is base64-decoded and the bytes are opened as an image.
  Otherwise the whole string is base64-decoded and the bytes are opened as an image. In
  the last two cases what opening the string as a path would do has no influence.
\<close>

theorem resolve_priority:
  "(path_exists env s \<longrightarrow>
      decode_image_to_pil env s = pil_open_path env s
      \<and> (\<forall>f g. decode_image_to_pil (env\<lparr>b64decode := f, pil_open_bytes := g\<rparr>) s
                 = decode_image_to_pil env s))
   \<and> (\<not> path_exists env s \<and> startswith s ''data:'' \<longrightarrow>
        (\<forall>h p. s = h @ CHR '','' # p \<and> CHR '','' \<notin> set h \<longrightarrow>
           decode_image_to_pil env s = and_then (b64decode env p) (pil_open_bytes env))
        \<and> (\<forall>f. decode_image_to_pil (env\<lparr>pil_open_path := f\<rparr>) s = decode_image_to_pil env s))
   \<and> (\<not> path_exists env s \<and> \<not> startswith s ''data:'' \<longrightarrow>
        decode_image_to_pil env s = and_then (b64decode env s) (pil_open_bytes env)
        \<and> (\<forall>f. decode_image_to_pil (env\<lparr>pil_open_path := f\<rparr>) s = decode_image_to_pil env s))"
proof (intro conjI impI allI)
  assume "path_exists env s"
  then show "decode_image_to_pil env s = pil_open_path env s" by (rule decode_path)
next
  fix f g assume "path_exists env s"
  then show "decode_image_to_pil (env\<lparr>b64decode := f, pil_open_bytes := g\<rparr>) s = decode_image_to_pil env s"
    by (simp add: decode_image_to_pil_def)
next
  fix h p assume "\<not> path_exists env s \<and> startswith s ''data:''" "s = h @ CHR '','' # p \<and> CHR '','' \<notin> set h"
  then show "decode_image_to_pil env s = and_then (b64decode env p) (pil_open_bytes env)"
    using decode_data_uri by blast
next
  fix f assume "\<not> path_exists env s \<and> startswith s ''data:''"
  then show "decode_image_to_pil (env\<lparr>pil_open_path := f\<rparr>) s = decode_image_to_pil env s"
    by (simp add: decode_image_to_pil_def)
next
  assume "\<not> path_exists env s \<and> \<not> startswith s ''data:''"
  then show "decode_image_to_pil env s = and_then (b64decode env s) (pil_open_bytes env)"
    using decode_raw by blast
next
  fix f assume "\<not> path_exists env s \<and> \<not> startswith s ''data:''"
  then show "decode_image_to_pil (env\<lparr>pil_open_path := f\<rparr>) s = decode_image_to_pil env s"
    by (simp add: decode_image_to_pil_def)
qed

theorem resolve_priority_witness:
  "(path_exists example_env ''/tmp/a.png''
      \<and> decode_image_to_pil example_env ''/tmp/a.png'' = pil_open_path example_env ''/tmp/a.png'')
   \<and> (\<not> path_exists example_env ''data:image/png;base64,QQ==''
      \<and> startswith ''data:image/png;base64,QQ=='' ''data:''
      \<and> decode_image_to_pil example_env ''data:image/png;base64,QQ=='' = Inr example_image)
   \<and> (\<not> path_exists example_env ''QQ=='' \<and> \<not> startswith ''QQ=='' ''data:''
      \<and> decode_image_to_pil example_env ''QQ=='' = Inr example_image)"
proof -
  have a: "path_exists example_env ''/tmp/a.png''"
    by (simp add: example_env_def)
  have b: "\<not> path_exists example_env ''data:image/png;base64,QQ=='' \<and> startswith ''data:image/png;base64,QQ=='' ''data:''"
    by (simp add: example_env_def startswith_def)
  have c: "''data:image/png;base64,QQ=='' = ''data:image/png;base64'' @ CHR '','' # ''QQ==''
           \<and> CHR '','' \<notin> set ''data:image/png;base64''"
    by simp
  have d: "\<not> path_exists example_env ''QQ=='' \<and> \<not> startswith ''QQ=='' ''data:''"
    by (simp add: example_env_def startswith_def)
  have e: "and_then (b64decode example_env ''QQ=='') (pil_open_bytes example_env) = Inr example_image"
    by (simp add: example_env_def and_then_def)
  from resolve_priority [of example_env "''/tmp/a.png''"] a
  have 1: "decode_image_to_pil example_env ''/tmp/a.png'' = pil_open_path example_env ''/tmp/a.png''"
    by blast
  from resolve_priority [of example_env "''data:image/png;base64,QQ==''"] b c
  have 2: "decode_image_to_pil example_env ''data:image/png;base64,QQ==''
           = and_then (b64decode example_env ''QQ=='') (pil_open_bytes example_env)"
    by blast
  from resolve_priority [of example_env "''QQ==''"] d
  have 3: "decode_image_to_pil example_env ''QQ==''
           = and_then (b64decode example_env ''QQ=='') (pil_open_bytes example_env)"
    by blast
  from a b d 1 2 3 e show ?thesis by simp
qed

text \<open>
  Claim C10. A reference that names no filesystem entry, starts with \<open>data:\<close> and has
  no comma makes the resolver raise: the split yields one item, which cannot be unpacked
  into header and payload. The string is not tried as raw base64.
\<close>

theorem data_prefix_without_comma_raises:
  "\<not> path_exists env s \<Longrightarrow> startswith s ''data:'' \<Longrightarrow> CHR '','' \<notin> set s
   \<Longrightarrow> decode_image_to_pil env s = Inl ValueError"
  by (rule decode_data_uri_no_comma)

theorem data_prefix_without_comma_raises_witness:
  "\<not> path_exists example_env ''data:QQ=='' \<and> startswith ''data:QQ=='' ''data:''
   \<and> CHR '','' \<notin> set ''data:QQ==''
   \<and> decode_image_to_pil example_env ''data:QQ=='' = Inl ValueError
   \<and> and_then (b64decode example_env ''data:QQ=='') (pil_open_bytes example_env) = Inl BinasciiError"
proof -
  have a: "\<not> path_exists example_env ''data:QQ==''" by (simp add: example_env_def)
  have b: "startswith ''data:QQ=='' ''data:''" by (simp add: startswith_def)
  have c: "CHR '','' \<notin> set ''data:QQ==''" by simp
  have d: "and_then (b64decode example_env ''data:QQ=='') (pil_open_bytes example_env) = Inl BinasciiError"
    by (simp add: example_env_def and_then_def)
  from a b c d data_prefix_without_comma_raises [OF a b c] show ?thesis by simp
qed

subsection \<open>Handlers and the resolver\<close>

text \<open>
  Claim C8. When the resolved image has no source format, \<^verbatim>\<open>image_info\<close> returns the
  literal \<open>(unknown)\<close> as its format, together with the width, the height and the mode of
  the image.
\<close>

theorem image_info_unknown_format:
  "decode_image_to_pil env s = Inr im \<Longrightarrow> format im = None
   \<Longrightarrow> image_info env s =
         Inr \<lparr>info_width = width im, info_height = height im, info_mode = mode im,
              info_format = ''(unknown)''\<rparr>"
  by (simp add: image_info_def and_then_def format_or_unknown_def)

theorem image_info_unknown_format_witness:
  "decode_image_to_pil example_env ''QQ=='' = Inr example_image \<and> format example_image = None
   \<and> image_info example_env ''QQ=='' =
         Inr \<lparr>info_width = 10, info_height = 10, info_mode = ''RGBA'', info_format = ''(unknown)''\<rparr>"
proof -
  have a: "decode_image_to_pil example_env ''QQ=='' = Inr example_image"
    by (simp add: decode_image_to_pil_def example_env_def startswith_def and_then_def)
  have b: "format example_image = None" by (simp add: example_image_def)
  from image_info_unknown_format [OF a b] a b show ?thesis by (simp add: example_image_def)
qed

text \<open>
  The two guards, lines 97 to 102 and 122 to 128. Whatever the image reference is, without
  the QR engine \<^verbatim>\<open>detect_qr\<close> returns a count of 0, no data and a non-empty error string,
  and when the import of the OCR wrapper fails \<^verbatim>\<open>ocr_text\<close> returns a non-empty text.
\<close>

theorem capability_unavailable_soft:
  "(cv2 env = None \<longrightarrow>
      (\<exists>msg. msg \<noteq> [] \<and> detect_qr env s = Inr \<lparr>error = Some msg, count = 0, data = []\<rparr>))
   \<and> (\<forall>e. pytesseract env = Inl e \<longrightarrow> (\<exists>msg. msg \<noteq> [] \<and> ocr_text env s lang = Inr msg))"
  by (simp add: detect_qr_def ocr_text_def)

theorem capability_unavailable_soft_witness:
  "cv2 (example_env\<lparr>cv2 := None, pytesseract := Inl ''No module named pytesseract''\<rparr>) = None
   \<and> pytesseract (example_env\<lparr>cv2 := None, pytesseract := Inl ''No module named pytesseract''\<rparr>)
       = Inl ''No module named pytesseract''
   \<and> decode_image_to_pil (example_env\<lparr>cv2 := None, pytesseract := Inl ''No module named pytesseract''\<rparr>) ''garbage''
       = Inl BinasciiError
   \<and> (\<exists>msg. msg \<noteq> [] \<and> detect_qr (example_env\<lparr>cv2 := None, pytesseract := Inl ''No module named pytesseract''\<rparr>) ''garbage''
                 = Inr \<lparr>error = Some msg, count = 0, data = []\<rparr>)
   \<and> (\<exists>msg. msg \<noteq> [] \<and> ocr_text (example_env\<lparr>cv2 := None, pytesseract := Inl ''No module named pytesseract''\<rparr>) ''garbage'' ''eng''
                 = Inr msg)"
proof -
  let ?env = "example_env\<lparr>cv2 := None, pytesseract := Inl ''No module named pytesseract''\<rparr>"
  have a: "cv2 ?env = None" by simp
  have b: "pytesseract ?env = Inl ''No module named pytesseract''" by simp
  have c: "decode_image_to_pil ?env ''garbage'' = Inl BinasciiError"
    by (simp add: decode_image_to_pil_def example_env_def startswith_def and_then_def)
  from capability_unavailable_soft [of ?env "''garbage''" "''eng''"] a b c show ?thesis by blast
qed

text \<open>
  What the OCR guard leaves out: the call of \<^verbatim>\<open>image_to_string\<close> at line 130 is outside
  the \<^verbatim>\<open>try\<close>, so an exception of the engine leaves the handler as it is.
\<close>

lemma ocr_text_engine_failure:
  "pytesseract env = Inr image_to_string \<Longrightarrow> decode_image_to_pil env s = Inr im0
   \<Longrightarrow> pil_convert env im0 ''L'' = Inr im \<Longrightarrow> image_to_string im lang = Inl e
   \<Longrightarrow> ocr_text env s lang = Inl e"
  by (simp add: ocr_text_def and_then_def)

text \<open>
  Claim C3. An optional capability that cannot be acquired has to give a descriptive,
  successful result and never an exception. For \<^verbatim>\<open>ocr_text\<close> the source does not keep
  this: its message names a missing Tesseract binary, but only the import is guarded.
  With the wrapper installed and the engine missing, on a reference that resolves, the
  handler raises the engine's exception instead of returning an explanatory text.
\<close>

theorem ocr_text_engine_missing_raises:
  "decode_image_to_pil tesseract_missing_env ''QQ=='' = Inr example_image
   \<and> \<not> isl (pytesseract tesseract_missing_env)
   \<and> ocr_text tesseract_missing_env ''QQ=='' ''eng''
       = Inl (LibraryError ''TesseractNotFoundError'')"
  by (simp add: tesseract_missing_env_def ocr_text_def decode_image_to_pil_def example_env_def
        startswith_def and_then_def)

text \<open>
  Claim C9. Whenever \<^verbatim>\<open>detect_qr\<close> returns a result, with or without the QR engine, its
  count is the length of its data list.
\<close>

theorem detect_qr_count_is_length:
  "detect_qr env s = Inr r \<Longrightarrow> count r = int (length (data r))"
  by (auto simp: detect_qr_def and_then_eq_Inr split: option.splits)

theorem detect_qr_count_is_length_witness:
  "detect_qr example_env ''QQ=='' = Inr \<lparr>error = None, count = 2, data = [''HELLO'', ''WORLD'']\<rparr>
   \<and> count \<lparr>error = None, count = 2, data = [''HELLO'', ''WORLD'']\<rparr>
       = int (length (data \<lparr>error = None, count = 2, data = [''HELLO'', ''WORLD'']\<rparr>))"
proof -
  have a: "detect_qr example_env ''QQ=='' = Inr \<lparr>error = None, count = 2, data = [''HELLO'', ''WORLD'']\<rparr>"
    by (simp add: detect_qr_def decode_image_to_pil_def example_env_def startswith_def and_then_def)
  from detect_qr_count_is_length [OF a] a show ?thesis by simp
qed

text \<open>
  Claim C2, as amended. When the resolver raises on a reference, the exception leaves
  the handler unchanged as its failure: always for \<^verbatim>\<open>image_info\<close>, \<^verbatim>\<open>grayscale\<close>,
  \<^verbatim>\<open>resize\<close> and \<^verbatim>\<open>dominant_colors\<close>, and for \<^verbatim>\<open>detect_qr\<close> and \<^verbatim>\<open>ocr_text\<close> when
  their engine is available. (The resolver raises, among others, on invalid base64 and
  on bytes the codec does not identify: \<open>decode_fails_bad_base64\<close> and
  \<open>decode_fails_bad_container\<close>.)
\<close>

theorem unresolvable_reference_fails:
  "decode_image_to_pil env s = Inl e \<Longrightarrow>
     image_info env s = Inl e
     \<and> grayscale env s = Inl e
     \<and> resize env s max_w max_h = Inl e
     \<and> dominant_colors env s colors = Inl e
     \<and> (cv2 env \<noteq> None \<longrightarrow> detect_qr env s = Inl e)
     \<and> (\<forall>image_to_string. pytesseract env = Inr image_to_string \<longrightarrow> ocr_text env s lang = Inl e)"
  by (auto simp: image_info_def grayscale_def resize_def dominant_colors_def detect_qr_def
        ocr_text_def and_then_Inl)

theorem unresolvable_reference_fails_witness:
  "decode_image_to_pil example_env ''garbage'' = Inl BinasciiError
   \<and> cv2 example_env \<noteq> None
   \<and> pytesseract example_env = Inr (\<lambda>im lang. Inr ''text'')
   \<and> image_info example_env ''garbage'' = Inl BinasciiError
   \<and> grayscale example_env ''garbage'' = Inl BinasciiError
   \<and> resize example_env ''garbage'' 1024 1024 = Inl BinasciiError
   \<and> dominant_colors example_env ''garbage'' 5 = Inl BinasciiError
   \<and> detect_qr example_env ''garbage'' = Inl BinasciiError
   \<and> ocr_text example_env ''garbage'' ''eng'' = Inl BinasciiError"
proof -
  have a: "decode_image_to_pil example_env ''garbage'' = Inl BinasciiError"
    by (simp add: decode_image_to_pil_def example_env_def startswith_def and_then_def)
  have b: "cv2 example_env \<noteq> None" by (simp add: example_env_def)
  have c: "pytesseract example_env = Inr (\<lambda>im lang. Inr ''text'')" by (simp add: example_env_def)
  from unresolvable_reference_fails [OF a, of 1024 1024 5 "''eng''"] a b c show ?thesis by blast
qed

text \<open>
  Claim C2 as stated, for every tool, fails: without the QR engine \<^verbatim>\<open>detect_qr\<close> returns
  its soft result before it looks at the reference, so a reference on which the resolver
  raises still gets a successful answer.
\<close>

theorem unresolvable_reference_counterexample:
  "decode_image_to_pil (example_env\<lparr>cv2 := None\<rparr>) ''garbage'' = Inl BinasciiError
   \<and> detect_qr (example_env\<lparr>cv2 := None\<rparr>) ''garbage''
       = Inr \<lparr>error = Some ''OpenCV not available. pip install opencv-python'', count = 0, data = []\<rparr>"
  by (simp add: detect_qr_def decode_image_to_pil_def example_env_def startswith_def and_then_def)

subsection \<open>Base64 text and data URIs\<close>

lemma b64_char_in_alphabet: "n < 64 \<Longrightarrow> b64_char n \<in> set b64_alphabet"
proof -
  assume "n < 64"
  moreover have "length b64_alphabet = 64" by (simp add: b64_alphabet_def)
  ultimately show ?thesis unfolding b64_char_def by (metis nth_mem)
qed

lemma unat_byte_bound: "unat (a :: byte) < 256"
  using unsigned_less [of a, where ?'a = nat] by simp

lemma b64encode_chars: "set (b64encode bs) \<subseteq> insert CHR ''='' (set b64_alphabet)"
proof (induction bs rule: b64encode.induct)
  case 1
  show ?case by simp
next
  case (2 a)
  have "unat a div 4 < 64" "unat a mod 4 * 16 < 64"
    using unat_byte_bound [of a] by arith+
  then show ?case by (simp add: b64_char_in_alphabet)
next
  case (3 a b)
  have "unat a div 4 < 64" "unat a mod 4 * 16 + unat b div 16 < 64" "unat b mod 16 * 4 < 64"
    using unat_byte_bound [of a] unat_byte_bound [of b] by arith+
  then show ?case by (simp add: b64_char_in_alphabet)
next
  case (4 a b c rest)
  have "unat a div 4 < 64" "unat a mod 4 * 16 + unat b div 16 < 64"
       "unat b mod 16 * 4 + unat c div 64 < 64" "unat c mod 64 < 64"
    using unat_byte_bound [of a] unat_byte_bound [of b] unat_byte_bound [of c] by arith+
  with "4.IH" show ?case by (simp add: b64_char_in_alphabet)
qed

lemma colon_not_b64: "CHR '':'' \<notin> insert CHR ''='' (set b64_alphabet)"
  by (simp add: b64_alphabet_def)

lemma startswith_data_has_colon: "startswith s ''data:'' \<Longrightarrow> CHR '':'' \<in> set s"
proof -
  assume "startswith s ''data:''"
  then have "take (length ''data:'') s = ''data:''" by (simp only: startswith_def)
  then have "CHR '':'' \<in> set (take (length ''data:'') s)" by simp
  then show ?thesis by (rule in_set_takeD)
qed

lemma b64encode_not_data_uri: "\<not> startswith (b64encode bs) ''data:''"
  using b64encode_chars [of bs] colon_not_b64 startswith_data_has_colon [of "b64encode bs"]
  by blast

lemma decode_png_data_uri:
  "\<not> path_exists env (''data:image/png;base64,'' @ p)
   \<Longrightarrow> decode_image_to_pil env (''data:image/png;base64,'' @ p)
       = and_then (b64decode env p) (pil_open_bytes env)"
proof -
  assume a: "\<not> path_exists env (''data:image/png;base64,'' @ p)"
  have b: "startswith (''data:image/png;base64,'' @ p) ''data:''" by (simp add: startswith_def)
  have c: "''data:image/png;base64,'' @ p = ''data:image/png;base64'' @ CHR '','' # p" by simp
  have d: "CHR '','' \<notin> set ''data:image/png;base64''" by simp
  from a b c d show ?thesis by (rule decode_data_uri)
qed

text \<open>
  Claim C4. For every byte buffer \<open>B\<close>, when neither the base64 text of \<open>B\<close> nor the
  data URI \<open>data:image/png;base64,\<close> followed by that text names a filesystem entry, the
  resolver gives the same result on both; and when \<open>B\<close> is a valid image (the decoder
  returns \<open>B\<close> and the codec opens it as a raster) both give that raster, hence the same
  width, height and mode.
\<close>

theorem raw_and_data_uri_agree:
  assumes "\<not> path_exists env (b64encode B)"
    and "\<not> path_exists env (''data:image/png;base64,'' @ b64encode B)"
  shows "decode_image_to_pil env (b64encode B)
           = decode_image_to_pil env (''data:image/png;base64,'' @ b64encode B)
         \<and> (\<forall>im. b64decode env (b64encode B) = Inr B \<and> pil_open_bytes env B = Inr im \<longrightarrow>
               decode_image_to_pil env (b64encode B) = Inr im
               \<and> decode_image_to_pil env (''data:image/png;base64,'' @ b64encode B) = Inr im)"
proof -
  have raw: "decode_image_to_pil env (b64encode B)
               = and_then (b64decode env (b64encode B)) (pil_open_bytes env)"
    using assms(1) b64encode_not_data_uri by (rule decode_raw)
  have uri: "decode_image_to_pil env (''data:image/png;base64,'' @ b64encode B)
               = and_then (b64decode env (b64encode B)) (pil_open_bytes env)"
    using assms(2) by (rule decode_png_data_uri)
  show ?thesis unfolding raw uri by (simp add: and_then_def)
qed

theorem raw_and_data_uri_agree_witness:
  "b64encode [65] = ''QQ==''
   \<and> \<not> path_exists example_env (b64encode [65])
   \<and> \<not> path_exists example_env (''data:image/png;base64,'' @ b64encode [65])
   \<and> b64decode example_env (b64encode [65]) = Inr [65]
   \<and> pil_open_bytes example_env [65] = Inr example_image
   \<and> decode_image_to_pil example_env ''QQ=='' = Inr example_image
   \<and> decode_image_to_pil example_env ''data:image/png;base64,QQ=='' = Inr example_image"
proof -
  have e: "b64encode [65] = ''QQ==''" by code_simp
  have a: "\<not> path_exists example_env (b64encode [65])" unfolding e by (simp add: example_env_def)
  have b: "\<not> path_exists example_env (''data:image/png;base64,'' @ b64encode [65])"
    unfolding e by (simp add: example_env_def)
  have c: "b64decode example_env (b64encode [65]) = Inr [65]" unfolding e by (simp add: example_env_def)
  have d: "pil_open_bytes example_env [65] = Inr example_image" by (simp add: example_env_def)
  from raw_and_data_uri_agree [OF a b] c d
  have "decode_image_to_pil example_env (b64encode [65]) = Inr example_image
        \<and> decode_image_to_pil example_env (''data:image/png;base64,'' @ b64encode [65]) = Inr example_image"
    by blast
  with a b c d e show ?thesis unfolding e by simp
qed

subsection \<open>The QR merge\<close>

lemma remdups_drop_seen: "s \<in> set ys \<Longrightarrow> remdups (xs @ s # ys) = remdups (xs @ ys)"
  by (induction xs) auto

lemma first_seen_order_skip_empty: "first_seen_order (xs @ [] # ys) = first_seen_order (xs @ ys)"
  by (simp add: first_seen_order_def)

lemma first_seen_order_skip_seen:
  assumes "s \<in> set xs" "s \<noteq> []"
  shows "first_seen_order (xs @ s # ys) = first_seen_order (xs @ ys)"
proof -
  from assms have "s \<in> set (rev (filter (\<lambda>s. s \<noteq> []) xs))" by simp
  then have "remdups (rev (filter (\<lambda>s. s \<noteq> []) ys) @ s # rev (filter (\<lambda>s. s \<noteq> []) xs))
             = remdups (rev (filter (\<lambda>s. s \<noteq> []) ys) @ rev (filter (\<lambda>s. s \<noteq> []) xs))"
    by (rule remdups_drop_seen)
  with assms(2) show ?thesis by (simp add: first_seen_order_def)
qed

lemma first_seen_order_fixed:
  "distinct xs \<Longrightarrow> [] \<notin> set xs \<Longrightarrow> first_seen_order xs = xs"
proof -
  assume d: "distinct xs" and n: "[] \<notin> set xs"
  from n have "filter (\<lambda>s. s \<noteq> []) xs = xs" by (induction xs) auto
  moreover from d have "remdups (rev xs) = rev xs" by (simp add: distinct_remdups_id)
  ultimately show ?thesis unfolding first_seen_order_def by (simp only: rev_rev_ident)
qed

lemma merge_multi_eq:
  "distinct datas \<Longrightarrow> [] \<notin> set datas
   \<Longrightarrow> merge_multi decoded_infos datas = first_seen_order (datas @ decoded_infos)"
proof (induction decoded_infos arbitrary: datas)
  case Nil
  then show ?case by (simp add: first_seen_order_fixed)
next
  case (Cons s ss)
  show ?case
  proof (cases "s \<noteq> [] \<and> s \<notin> set datas")
    case True
    with Cons.prems have "distinct (datas @ [s])" "[] \<notin> set (datas @ [s])" by auto
    then have "merge_multi ss (datas @ [s]) = first_seen_order ((datas @ [s]) @ ss)"
      by (rule Cons.IH)
    with True show ?thesis by simp
  next
    case False
    from Cons.prems have ih: "merge_multi ss datas = first_seen_order (datas @ ss)"
      by (rule Cons.IH)
    from False have "first_seen_order (datas @ s # ss) = first_seen_order (datas @ ss)"
      using first_seen_order_skip_empty first_seen_order_skip_seen by blast
    with False ih show ?thesis by auto
  qed
qed

lemma first_seen_order_distinct: "distinct (first_seen_order xs)"
  by (simp add: first_seen_order_def)

lemma first_seen_order_nonempty: "[] \<notin> set (first_seen_order xs)"
  by (simp add: first_seen_order_def)

lemma first_seen_order_set: "set (first_seen_order xs) = set xs - {[]}"
  by (auto simp: first_seen_order_def)

lemma merge_multi_single:
  "merge_multi ms (if d \<noteq> [] then [d] else []) = first_seen_order (d # ms)"
proof (cases "d = []")
  case True
  have "merge_multi ms [] = first_seen_order ([] @ ms)" by (rule merge_multi_eq) simp_all
  with True show ?thesis using first_seen_order_skip_empty [of "[]" ms] by simp
next
  case False
  have "merge_multi ms [d] = first_seen_order ([d] @ ms)"
    using False by (intro merge_multi_eq) auto
  with False show ?thesis by simp
qed

text \<open>
  Claim C7. With the QR engine available, whenever \<^verbatim>\<open>detect_qr\<close> returns, its data list
  is built from the one string \<open>d\<close> of the direct decode followed by the strings \<open>multi\<close>
  of the multi-symbol detection (none when the detector lacks it or it returns nothing):
  it holds the non-empty strings of that sequence, each once, in the order in which each
  is first seen. The image was forced to RGB before either detection.
\<close>

theorem detect_qr_merges_first_seen:
  assumes "cv2 env = Some detector" and "detect_qr env s = Inr r"
  shows "\<exists>im0 arr d multi.
           decode_image_to_pil env s = Inr im0
           \<and> pil_convert env im0 ''RGB'' = Inr arr
           \<and> detectAndDecode detector arr = Inr d
           \<and> (case detectAndDecodeMulti detector of
                 None \<Rightarrow> multi = []
               | Some f \<Rightarrow> f arr = Inr None \<and> multi = [] \<or> f arr = Inr (Some multi))
           \<and> data r = first_seen_order (d # multi)
           \<and> distinct (data r) \<and> [] \<notin> set (data r)
           \<and> set (data r) = set (d # multi) - {[]}
           \<and> error r = None"
proof -
  from assms obtain im0 arr d datas where
    a: "decode_image_to_pil env s = Inr im0" and
    b: "pil_convert env im0 ''RGB'' = Inr arr" and
    c: "detectAndDecode detector arr = Inr d" and
    m: "(case detectAndDecodeMulti detector of
           None \<Rightarrow> Inr (if d \<noteq> [] then [d] else [])
         | Some multi \<Rightarrow>
             and_then (multi arr) (\<lambda>decoded_infos.
               Inr (merge_multi (case decoded_infos of None \<Rightarrow> [] | Some l \<Rightarrow> l)
                      (if d \<noteq> [] then [d] else [])))) = (Inr datas :: py_error + string list)" and
    r: "r = \<lparr>error = None, count = int (length datas), data = datas\<rparr>"
    by (auto simp: detect_qr_def and_then_eq_Inr Let_def)
  have "\<exists>multi. (case detectAndDecodeMulti detector of
                 None \<Rightarrow> multi = []
               | Some f \<Rightarrow> f arr = Inr None \<and> multi = [] \<or> f arr = Inr (Some multi))
              \<and> datas = first_seen_order (d # multi)"
  proof (cases "detectAndDecodeMulti detector")
    case None
    with m have "datas = (if d \<noteq> [] then [d] else [])" by simp
    then have "datas = first_seen_order [d]" by (simp add: first_seen_order_def)
    with None show ?thesis by simp
  next
    case (Some f)
    with m obtain infos where i: "f arr = Inr infos"
      and dd: "datas = merge_multi (case infos of None \<Rightarrow> [] | Some l \<Rightarrow> l) (if d \<noteq> [] then [d] else [])"
      by (auto simp: and_then_eq_Inr)
    show ?thesis
    proof (cases infos)
      case None
      with dd have "datas = first_seen_order (d # [])" by (simp add: merge_multi_single)
      with Some i None show ?thesis by auto
    next
      case (Some l)
      with dd have "datas = first_seen_order (d # l)" by (simp add: merge_multi_single)
      with \<open>detectAndDecodeMulti detector = Some f\<close> i Some show ?thesis by auto
    qed
  qed
  then obtain multi where
    mm: "(case detectAndDecodeMulti detector of
                 None \<Rightarrow> multi = []
               | Some f \<Rightarrow> f arr = Inr None \<and> multi = [] \<or> f arr = Inr (Some multi))"
    and dd: "datas = first_seen_order (d # multi)" by blast
  from r dd have "data r = first_seen_order (d # multi)" "error r = None" by simp_all
  with a b c mm show ?thesis
    using first_seen_order_distinct [of "d # multi"] first_seen_order_nonempty [of "d # multi"]
      first_seen_order_set [of "d # multi"]
    by (intro exI [of _ im0] exI [of _ arr] exI [of _ d] exI [of _ multi]) simp
qed

theorem detect_qr_merges_first_seen_witness:
  "cv2 example_env = Some \<lparr>detectAndDecode = (\<lambda>arr. Inr ''HELLO''),
                  detectAndDecodeMulti =
                    Some (\<lambda>arr. Inr (Some [''HELLO'', [], ''WORLD'', ''WORLD'']))\<rparr>
   \<and> detect_qr example_env ''QQ=='' = Inr \<lparr>error = None, count = 2, data = [''HELLO'', ''WORLD'']\<rparr>
   \<and> first_seen_order [''HELLO'', ''HELLO'', [], ''WORLD'', ''WORLD''] = [''HELLO'', ''WORLD'']
   \<and> (\<exists>multi. data \<lparr>error = None, count = 2, data = [''HELLO'', ''WORLD'']\<rparr>
                   = first_seen_order (''HELLO'' # multi))"
proof -
  let ?det = "\<lparr>detectAndDecode = (\<lambda>arr :: nat pil_image. Inr ''HELLO'' :: py_error + string),
                  detectAndDecodeMulti =
                    Some (\<lambda>arr. Inr (Some [''HELLO'', [], ''WORLD'', ''WORLD'']))\<rparr>"
  let ?r = "\<lparr>error = None, count = 2, data = [''HELLO'', ''WORLD'']\<rparr>"
  have a: "cv2 example_env = Some ?det" by (simp add: example_env_def)
  have b: "detect_qr example_env ''QQ=='' = Inr ?r"
    by (simp add: detect_qr_def decode_image_to_pil_def example_env_def startswith_def and_then_def)
  have c: "first_seen_order [''HELLO'', ''HELLO'', [], ''WORLD'', ''WORLD''] = [''HELLO'', ''WORLD'']"
    by (simp add: first_seen_order_def)
  from detect_qr_merges_first_seen [OF a b]
  obtain im0 arr d multi where
    "detectAndDecode ?det arr = Inr d" "data ?r = first_seen_order (d # multi)"
    by blast
  then have "\<exists>multi. data ?r = first_seen_order (''HELLO'' # multi)" by auto
  with a b c show ?thesis by blast
qed

subsection \<open>Dominant colours\<close>

declare hex_digits.simps [simp del]











subsection \<open>Resizing\<close>

lemma min_key_cases: "min_key k a b = a \<or> min_key k a b = b"
  by (simp add: min_key_def)

lemma round_aspect_pos:
  assumes "0 < q"
  shows "1 \<le> round_aspect q k" and "round_aspect q k \<le> \<lceil>q\<rceil>"
    and "\<bar>of_int (round_aspect q k) - q\<bar> < 1"
proof -
  have f: "of_int \<lfloor>q\<rfloor> \<le> q" "q < of_int \<lfloor>q\<rfloor> + 1" by linarith+
  have c: "of_int \<lceil>q\<rceil> - 1 < q" "q \<le> of_int \<lceil>q\<rceil>" by linarith+
  from assms have c1: "1 \<le> \<lceil>q\<rceil>" by (simp add: ceiling_le_iff less_ceiling_iff) 
  have fc: "\<lfloor>q\<rfloor> \<le> \<lceil>q\<rceil>" by (rule floor_le_ceiling)
  show "1 \<le> round_aspect q k" by (simp add: round_aspect_def)
  show "round_aspect q k \<le> \<lceil>q\<rceil>"
    using min_key_cases [of k "\<lfloor>q\<rfloor>" "\<lceil>q\<rceil>"] c1 fc by (auto simp: round_aspect_def)
  show "\<bar>of_int (round_aspect q k) - q\<bar> < 1"
  proof (cases "min_key k \<lfloor>q\<rfloor> \<lceil>q\<rceil> = \<lceil>q\<rceil>")
    case True
    with c1 have "round_aspect q k = \<lceil>q\<rceil>" by (simp add: round_aspect_def)
    with c show ?thesis by simp
  next
    case False
    with min_key_cases [of k "\<lfloor>q\<rfloor>" "\<lceil>q\<rceil>"] have m: "min_key k \<lfloor>q\<rfloor> \<lceil>q\<rceil> = \<lfloor>q\<rfloor>" by blast
    show ?thesis
    proof (cases "1 \<le> \<lfloor>q\<rfloor>")
      case True
      with m have "round_aspect q k = \<lfloor>q\<rfloor>" by (simp add: round_aspect_def)
      with f show ?thesis by simp
    next
      case False
      with m have r: "round_aspect q k = 1" by (simp add: round_aspect_def)
      from False have "\<lfloor>q\<rfloor> \<le> 0" by simp
      then have "of_int \<lfloor>q\<rfloor> \<le> (0 :: rat)" by simp
      with f have "q < 1" by linarith
      with assms r show ?thesis by simp
    qed
  qed
qed

lemma round_aspect_nonpos: "q \<le> 0 \<Longrightarrow> round_aspect q k = 1"
proof -
  assume q: "q \<le> 0"
  then have "\<lfloor>q\<rfloor> \<le> 0" "\<lceil>q\<rceil> \<le> 0" by (simp_all add: floor_le_iff ceiling_le_iff)
  with min_key_cases [of k "\<lfloor>q\<rfloor>" "\<lceil>q\<rceil>"] show ?thesis by (auto simp: round_aspect_def)
qed

lemma preserve_fits:
  "w \<le> x \<Longrightarrow> h \<le> y \<Longrightarrow> preserve_aspect_ratio (w, h) (x, y) = Inr None"
  by (simp add: preserve_aspect_ratio_def)

lemma preserve_None_fits:
  "preserve_aspect_ratio (w, h) (x, y) = Inr None \<Longrightarrow> w \<le> x \<and> h \<le> y"
  by (auto simp: preserve_aspect_ratio_def Let_def split: if_splits)

lemma preserve_zero_height_box:
  "0 < h \<Longrightarrow> preserve_aspect_ratio (w, h) (x, 0) = Inl ZeroDivisionError"
  by (simp add: preserve_aspect_ratio_def)

lemma preserve_nonpos_width_box:
  assumes "0 < w" "0 < h" "x \<le> 0" "1 \<le> y"
  shows "preserve_aspect_ratio (w, h) (x, y) = Inr (Some (x, 1))"
proof -
  let ?a = "of_int w / of_int h :: rat"
  from assms have a: "0 < ?a" by simp
  from assms have "of_int x / of_int y \<le> (0 :: rat)" by (simp add: divide_le_0_iff)
  with a have lt: "\<not> ?a \<le> of_int x / of_int y" by linarith
  from assms have "(of_int x :: rat) \<le> 0" by simp
  with a have "of_int x / ?a \<le> 0" by (simp only: divide_le_0_iff) simp
  then have r: "round_aspect (of_int x / ?a) k = 1" for k by (rule round_aspect_nonpos)
  from assms have nf: "\<not> (w \<le> x \<and> h \<le> y)" by simp
  from assms have hy: "h \<noteq> 0" "y \<noteq> 0" "?a \<noteq> 0" by simp_all
  show ?thesis
    unfolding preserve_aspect_ratio_def Let_def fst_conv snd_conv
    using nf hy lt r by simp
qed

lemma preserve_pos:
  assumes "0 < w" "0 < h" "1 \<le> x" "1 \<le> y"
    and "preserve_aspect_ratio (w, h) (x, y) = Inr (Some (x', y'))"
  shows "1 \<le> x' \<and> x' \<le> x \<and> x' \<le> w \<and> 1 \<le> y' \<and> y' \<le> y \<and> y' \<le> h
         \<and> (\<bar>x' * h - y' * w\<bar> < h \<or> \<bar>y' * w - x' * h\<bar> < w)"
proof -
  let ?W = "of_int w :: rat" and ?H = "of_int h :: rat"
  let ?X = "of_int x :: rat" and ?Y = "of_int y :: rat"
  let ?a = "?W / ?H"
  from assms have pos: "0 < ?W" "0 < ?H" "0 < ?X" "0 < ?Y" by simp_all
  then have a: "0 < ?a" by simp
  from assms(5) have nf: "\<not> (w \<le> x \<and> h \<le> y)"
    by (auto simp: preserve_aspect_ratio_def)
  have cmp: "(?a \<le> ?X / ?Y) = (w * y \<le> x * h)"
  proof -
    from pos have "(?a \<le> ?X / ?Y) = (?W * ?Y \<le> ?X * ?H)" by (simp add: field_simps)
    also have "\<dots> = (w * y \<le> x * h)"
      by (simp only: of_int_mult [symmetric] of_int_le_iff)
    finally show ?thesis .
  qed
  show ?thesis
  proof (cases "?a \<le> ?X / ?Y")
    case True
    let ?q = "?Y * ?a"
    let ?k = "\<lambda>n. \<bar>?a - of_int n / ?Y\<bar>"
    from assms(5) nf True assms(1-4) have r: "x' = round_aspect ?q ?k" "y' = y"
      by (auto simp: preserve_aspect_ratio_def Let_def split: if_splits)
    from pos a have q: "0 < ?q" by simp
    from True cmp have le: "w * y \<le> x * h" by simp
    have yh: "y < h"
    proof (rule ccontr)
      assume "\<not> y < h"
      then have hy: "h \<le> y" by simp
      with nf have "x < w" by simp
      with assms(2) have "x * h < w * h" by simp
      moreover from hy assms(1) have "w * h \<le> w * y" by simp
      ultimately show False using le by linarith
    qed
    from le have "?W * ?Y \<le> ?X * ?H" by (simp only: of_int_mult [symmetric] of_int_le_iff)
    with pos have qx: "?q \<le> ?X" by (simp add: field_simps)
    from yh have "?Y < ?H" by simp
    with pos have "?Y * ?W < ?H * ?W" by simp
    with pos have qw: "?q \<le> ?W" by (simp add: field_simps)
    from qx have cx: "\<lceil>?q\<rceil> \<le> x" by (simp add: ceiling_le_iff)
    from qw have cw: "\<lceil>?q\<rceil> \<le> w" by (simp add: ceiling_le_iff)
    note ra = round_aspect_pos [OF q, of ?k]
    from ra(3) have "\<bar>of_int x' - ?q\<bar> < 1" by (simp add: r)
    then have "\<bar>of_int x' - ?q\<bar> * ?H < 1 * ?H" using pos by (simp only: mult_strict_right_mono)
    moreover have "\<bar>of_int x' - ?q\<bar> * ?H = \<bar>of_int x' * ?H - ?Y * ?W\<bar>"
    proof -
      have "\<bar>of_int x' - ?q\<bar> * ?H = \<bar>(of_int x' - ?q) * ?H\<bar>" using pos by (simp add: abs_mult)
      also have "(of_int x' - ?q) * ?H = of_int x' * ?H - ?Y * ?W" using pos by (simp add: field_simps)
      finally show ?thesis .
    qed
    ultimately have "\<bar>of_int x' * ?H - ?Y * ?W\<bar> < ?H" by simp
    then have "(of_int \<bar>x' * h - y * w\<bar> :: rat) < of_int h" by simp
    then have asp: "\<bar>x' * h - y * w\<bar> < h" by (simp only: of_int_less_iff)
    from ra(1,2) cx cw r yh assms(4) asp show ?thesis by simp
  next
    case False
    let ?q = "?X / ?a"
    let ?k = "\<lambda>n. if n = 0 then 0 else \<bar>?a - ?X / of_int n\<bar>"
    from a have a0: "?a \<noteq> 0" by (simp only: less_imp_neq [THEN not_sym] not_False_eq_True)
    from assms(5) nf False assms(1-4) a0 have r: "x' = x" "y' = round_aspect ?q ?k"
      by (auto simp: preserve_aspect_ratio_def Let_def split: if_splits)
    from pos a have q: "0 < ?q" by simp
    from False cmp have lt: "x * h < w * y" by simp
    have xw: "x \<le> w"
    proof (rule ccontr)
      assume "\<not> x \<le> w"
      then have wx: "w < x" by simp
      with nf have "y < h" by simp
      with assms(1) have "w * y < w * h" by simp
      moreover from wx assms(2) have "w * h < x * h" by simp
      ultimately show False using lt by linarith
    qed
    have qeq: "?q = ?X * ?H / ?W" using pos by (simp add: field_simps)
    from lt have "?X * ?H < ?W * ?Y" by (simp only: of_int_mult [symmetric] of_int_less_iff)
    with pos have qy: "?q \<le> ?Y" unfolding qeq by (simp add: field_simps)
    from xw have "?X \<le> ?W" by simp
    with pos have "?X * ?H \<le> ?W * ?H" by simp
    with pos have qh: "?q \<le> ?H" unfolding qeq by (simp add: field_simps)
    from qy have cy: "\<lceil>?q\<rceil> \<le> y" by (simp only: ceiling_le_iff)
    from qh have ch: "\<lceil>?q\<rceil> \<le> h" by (simp only: ceiling_le_iff)
    note ra = round_aspect_pos [OF q, of ?k]
    from ra(3) have "\<bar>of_int y' - ?q\<bar> < 1" by (simp add: r)
    then have "\<bar>of_int y' - ?q\<bar> * ?W < 1 * ?W" using pos by (simp only: mult_strict_right_mono)
    moreover have "\<bar>of_int y' - ?q\<bar> * ?W = \<bar>of_int y' * ?W - ?X * ?H\<bar>"
    proof -
      have "\<bar>of_int y' - ?q\<bar> * ?W = \<bar>(of_int y' - ?q) * ?W\<bar>" using pos by (simp add: abs_mult)
      also have "(of_int y' - ?q) * ?W = of_int y' * ?W - ?X * ?H"
        unfolding qeq using pos by (simp add: field_simps)
      finally show ?thesis .
    qed
    ultimately have "\<bar>of_int y' * ?W - ?X * ?H\<bar> < ?W" by simp
    then have "(of_int \<bar>y' * w - x * h\<bar> :: rat) < of_int w" by simp
    then have asp: "\<bar>y' * w - x * h\<bar> < w" by (simp only: of_int_less_iff)
    from ra(1,2) cy ch r xw assms(3) asp show ?thesis by simp
  qed
qed

lemma pil_resize_size:
  "pil_resize env im fs = Inr im'
   \<Longrightarrow> 1 \<le> fst fs \<and> 1 \<le> snd fs \<and> width im' = fst fs \<and> height im' = snd fs \<and> mode im' = mode im"
  by (auto simp: pil_resize_def and_then_eq_Inr split: if_splits)

lemma pil_copy_size:
  "pil_copy env im0 = Inr im \<Longrightarrow> width im = width im0 \<and> height im = height im0 \<and> mode im = mode im0"
  by (auto simp: pil_copy_def and_then_eq_Inr)

lemma thumbnail_cases:
  assumes "thumbnail env im box = Inr im'"
  shows "(preserve_aspect_ratio (width im, height im) box = Inr None \<and> im' = im)
         \<or> (\<exists>fs. preserve_aspect_ratio (width im, height im) box = Inr (Some fs)
                \<and> (if (width im, height im) \<noteq> fs then pil_resize env im fs = Inr im' else im' = im))"
proof -
  from assms obtain preserved where
    p: "preserve_aspect_ratio (width im, height im) box = Inr preserved" and
    r: "(case preserved of
           None \<Rightarrow> Inr im
         | Some final_size \<Rightarrow>
             if (width im, height im) \<noteq> final_size then pil_resize env im final_size else Inr im)
        = Inr im'"
    unfolding thumbnail_def and_then_eq_Inr by blast
  show ?thesis
  proof (cases preserved)
    case None
    with p r show ?thesis by simp
  next
    case (Some fs)
    with r have "if (width im, height im) \<noteq> fs then pil_resize env im fs = Inr im' else im' = im"
      by (simp split: if_splits)
    with p Some show ?thesis by blast
  qed
qed

lemma thumbnail_bounds:
  assumes w: "0 < width im" and h: "0 < height im" and y0: "0 \<le> y"
    and t: "thumbnail env im (x, y) = Inr im'"
  shows "1 \<le> width im' \<and> 1 \<le> height im'
         \<and> width im' \<le> x \<and> height im' \<le> y
         \<and> width im' \<le> width im \<and> height im' \<le> height im
         \<and> (\<bar>width im' * height im - height im' * width im\<bar> < height im
            \<or> \<bar>height im' * width im - width im' * height im\<bar> < width im)
         \<and> (width im \<le> x \<and> height im \<le> y \<longrightarrow> width im' = width im \<and> height im' = height im)
         \<and> mode im' = mode im"
proof -
  from thumbnail_cases [OF t] show ?thesis
  proof
    assume n: "preserve_aspect_ratio (width im, height im) (x, y) = Inr None \<and> im' = im"
    then have "width im \<le> x \<and> height im \<le> y" using preserve_None_fits by blast
    with n w h show ?thesis by simp
  next
    assume "\<exists>fs. preserve_aspect_ratio (width im, height im) (x, y) = Inr (Some fs)
                \<and> (if (width im, height im) \<noteq> fs then pil_resize env im fs = Inr im' else im' = im)"
    then obtain x' y' where
      p: "preserve_aspect_ratio (width im, height im) (x, y) = Inr (Some (x', y'))" and
      r: "if (width im, height im) \<noteq> (x', y') then pil_resize env im (x', y') = Inr im' else im' = im"
      by (metis surj_pair)
    from p h have yn: "y \<noteq> 0" using preserve_zero_height_box [of "height im" "width im" x] by auto
    with y0 have y1: "1 \<le> y" by simp
    have sz: "width im' = x' \<and> height im' = y' \<and> mode im' = mode im"
      using r pil_resize_size [of env im "(x', y')" im'] by (auto split: if_splits)
    have x1: "1 \<le> x"
    proof (rule ccontr)
      assume "\<not> 1 \<le> x"
      then have x0: "x \<le> 0" by simp
      from preserve_nonpos_width_box [OF w h x0 y1] p have e: "x' = x" "y' = 1" by simp_all
      from x0 w e have "(width im, height im) \<noteq> (x', y')" by auto
      with r have "pil_resize env im (x', y') = Inr im'" by simp
      then have "1 \<le> x'" using pil_resize_size [of env im "(x', y')" im'] by simp
      with e x0 show False by simp
    qed
    from preserve_pos [OF w h x1 y1 p]
    have b: "1 \<le> x' \<and> x' \<le> x \<and> x' \<le> width im \<and> 1 \<le> y' \<and> y' \<le> y \<and> y' \<le> height im
             \<and> (\<bar>x' * height im - y' * width im\<bar> < height im
                \<or> \<bar>y' * width im - x' * height im\<bar> < width im)" .
    have "\<not> (width im \<le> x \<and> height im \<le> y)"
      using p preserve_fits [of "width im" x "height im" y] by auto
    with b sz show ?thesis by blast
  qed
qed

text \<open>
  Claim C5, as amended. For a resolved image of at least one pixel each way, every
  \<open>max_w\<close> and every \<open>max_h\<close> that is not negative: whenever \<^verbatim>\<open>resize\<close> returns, its
  payload is declared \<open>png\<close> and is the PNG encoding of a raster that is at most \<open>max_w\<close>
  wide and \<open>max_h\<close> high, no larger than the original in either dimension, and within one
  pixel of the original aspect ratio (one side is the other scaled by the ratio, rounded);
  when the original already fits the box the raster has the original dimensions. The
  bounds are those of the size computation modelled in \<open>preserve_aspect_ratio\<close>.
\<close>

theorem resize_fits_box:
  assumes "decode_image_to_pil env s = Inr im0"
    and "0 < width im0" and "0 < height im0"
    and "0 \<le> max_h"
    and "resize env s max_w max_h = Inr out"
  shows "img_format out = ''png''
         \<and> (\<exists>im'. pil_save_png env im' = Inr (img_data out)
               \<and> 1 \<le> width im' \<and> 1 \<le> height im'
               \<and> width im' \<le> max_w \<and> height im' \<le> max_h
               \<and> width im' \<le> width im0 \<and> height im' \<le> height im0
               \<and> (\<bar>width im' * height im0 - height im' * width im0\<bar> < height im0
                  \<or> \<bar>height im' * width im0 - width im' * height im0\<bar> < width im0)
               \<and> (width im0 \<le> max_w \<and> height im0 \<le> max_h
                    \<longrightarrow> width im' = width im0 \<and> height im' = height im0)
               \<and> mode im' = mode im0)"
proof -
  from assms(1,5) obtain im im' where
    c: "pil_copy env im0 = Inr im" and
    t: "thumbnail env im (max_w, max_h) = Inr im'" and
    sv: "pil_save_png env im' = Inr (img_data out)" and
    f: "img_format out = ''png''"
    by (auto simp: resize_def and_then_eq_Inr)
  from pil_copy_size [OF c] have e: "width im = width im0" "height im = height im0" "mode im = mode im0"
    by simp_all
  from assms(2,3) e have w: "0 < width im" and h: "0 < height im" by simp_all
  from thumbnail_bounds [OF w h assms(4) t] e sv f show ?thesis by auto
qed

theorem resize_fits_box_witness:
  "decode_image_to_pil example_env ''QQ=='' = Inr example_image
   \<and> 0 < width example_image \<and> 0 < height example_image \<and> (0 :: int) \<le> 7
   \<and> resize example_env ''QQ=='' 3 7 = Inr \<lparr>img_data = [3, 3], img_format = ''png''\<rparr>
   \<and> (\<exists>im'. pil_save_png example_env im' = Inr [3, 3] \<and> width im' \<le> 3 \<and> height im' \<le> 7)"
proof -
  have a: "decode_image_to_pil example_env ''QQ=='' = Inr example_image"
    by (simp add: decode_image_to_pil_def example_env_def startswith_def and_then_def)
  have b: "0 < width example_image" and c: "0 < height example_image"
    by (simp_all add: example_image_def)
  have d: "(0 :: int) \<le> 7" by simp
  have e: "resize example_env ''QQ=='' 3 7 = Inr \<lparr>img_data = [3, 3], img_format = ''png''\<rparr>"
    by (simp add: resize_def example_env_def example_image_def decode_image_to_pil_def
          startswith_def and_then_def pil_copy_def thumbnail_def preserve_aspect_ratio_def
          round_aspect_def min_key_def pil_resize_def)
  from resize_fits_box [OF a b c d e]
  have "\<exists>im'. pil_save_png example_env im' = Inr [3, 3] \<and> width im' \<le> 3 \<and> height im' \<le> 7"
    by auto
  with a b c d e show ?thesis by blast
qed

text \<open>
  Claim C5 as stated, for every \<open>max_h\<close>, fails in this model: the source passes the box
  on unchecked, and for a negative height the size computation keeps the width of the box
  and derives a positive height from it. A 10 by 10 image resized to the box 5 by -5
  comes back 5 by 5.
\<close>

theorem resize_negative_height_counterexample:
  "decode_image_to_pil example_env ''QQ=='' = Inr example_image
   \<and> width example_image = 10 \<and> height example_image = 10
   \<and> pil_copy example_env example_image = Inr example_image
   \<and> thumbnail example_env example_image (5, - 5) = Inr (example_image\<lparr>width := 5, height := 5\<rparr>)
   \<and> resize example_env ''QQ=='' 5 (- 5) = Inr \<lparr>img_data = [5, 5], img_format = ''png''\<rparr>
   \<and> \<not> height (example_image\<lparr>width := 5, height := 5\<rparr>) \<le> - 5"
  by (simp add: resize_def example_env_def example_image_def decode_image_to_pil_def
        startswith_def and_then_def pil_copy_def thumbnail_def preserve_aspect_ratio_def
        round_aspect_def min_key_def pil_resize_def)

end
